theory Spec2Isabelle
  imports Complex_Main "HOL-Library.Sublist"
begin

section \<open>Strings\<close>

text \<open>
  A JavaScript string is a sequence of UTF-16 code units. The model keeps the code units
  below 256 (Latin-1), one \<^typ>\<open>char\<close> each; the helpers below are the library
  methods of \<^verbatim>\<open>String.prototype\<close> that \<^verbatim>\<open>App.jsx\<close> calls, on that range.
\<close>

definition lowerChar :: "char \<Rightarrow> char" where
  "lowerChar c =
     (let n = (of_char c :: nat)
      in if (65 \<le> n \<and> n \<le> 90) \<or> (192 \<le> n \<and> n \<le> 222 \<and> n \<noteq> 215)
         then char_of (n + 32) else c)"

definition toLowerCase :: "string \<Rightarrow> string" where
  "toLowerCase s = map lowerChar s"

text \<open>White space and line terminators removed by \<^verbatim>\<open>trim()\<close>: TAB, LF, VT, FF, CR, SP, NBSP.\<close>

definition isWhiteSpace :: "char \<Rightarrow> bool" where
  "isWhiteSpace c = ((of_char c :: nat) \<in> {9, 10, 11, 12, 13, 32, 160})"

definition trim :: "string \<Rightarrow> string" where
  "trim s = rev (dropWhile isWhiteSpace (rev (dropWhile isWhiteSpace s)))"

text \<open>\<^verbatim>\<open>s.includes(q)\<close>: \<^verbatim>\<open>q\<close> occurs in \<^verbatim>\<open>s\<close> at some position.\<close>

fun includes_str :: "string \<Rightarrow> string \<Rightarrow> bool" where
  "includes_str [] q = (q = [])"
| "includes_str (c # cs) q = (prefix q (c # cs) \<or> includes_str cs q)"

text \<open>The separator pattern \<^verbatim>\<open>/\n|\.|\r/\<close>: one LF, one full stop or one CR.\<close>

definition isSeparator :: "char \<Rightarrow> bool" where
  "isSeparator c = ((of_char c :: nat) \<in> {10, 46, 13})"

text \<open>
  \<^verbatim>\<open>s.split(re)\<close> for a pattern that matches single characters: the text is cut at every
  match, empty pieces are kept, and the empty string gives one empty piece.
\<close>

fun split_loop :: "(char \<Rightarrow> bool) \<Rightarrow> string \<Rightarrow> string \<Rightarrow> string list" where
  "split_loop P cur [] = [cur]"
| "split_loop P cur (c # cs) =
     (if P c then cur # split_loop P [] cs else split_loop P (cur @ [c]) cs)"

definition split_str :: "(char \<Rightarrow> bool) \<Rightarrow> string \<Rightarrow> string list" where
  "split_str P s = split_loop P [] s"

text \<open>
  \<^verbatim>\<open>re.test(s)\<close> for a case-insensitive pattern that is an alternation of lower-case
  ASCII words: some word occurs in \<^verbatim>\<open>s\<close> up to case.
\<close>

definition test_i :: "string list \<Rightarrow> string \<Rightarrow> bool" where
  "test_i ws s = list_ex (\<lambda>w. includes_str (toLowerCase s) w) ws"

text \<open>\<^verbatim>\<open>x || ""\<close> on a string that may be null or missing.\<close>

definition orEmpty :: "string option \<Rightarrow> string" where
  "orEmpty x = (case x of None \<Rightarrow> [] | Some s \<Rightarrow> s)"

text \<open>
  String conversion of a field in a template or as the argument of \<^verbatim>\<open>test\<close>: a
  missing field reads \<^verbatim>\<open>undefined\<close> (a null one reads \<^verbatim>\<open>null\<close>; no word of
  the patterns below occurs in either).
\<close>

definition toStr :: "string option \<Rightarrow> string" where
  "toStr x = (case x of None \<Rightarrow> ''undefined'' | Some s \<Rightarrow> s)"

text \<open>
  \<^verbatim>\<open>Math.round\<close>: the nearest integer, a half rounded up. The numbers of this program
  are small integers, which a double holds exactly.
\<close>

definition Math_round :: "real \<Rightarrow> int" where
  "Math_round x = \<lfloor>x + 1 / 2\<rfloor>"

section \<open>Recipe records\<close>

text \<open>
  A meal of the filter endpoint carries its identifier and name; a meal of the lookup
  endpoint extends it. A field that is null or missing is \<open>None\<close>; the twenty numbered
  slots \<^verbatim>\<open>strIngredient1\<close> .. \<^verbatim>\<open>strIngredient20\<close> and their measures are maps
  from the slot number. A favourite is the pair \<^verbatim>\<open>{ idMeal, strMeal }\<close>, a summary.
\<close>

record summary =
  idMeal :: string
  strMeal :: "string option"

record meal = summary +
  strCategory :: "string option"
  strArea :: "string option"
  strInstructions :: "string option"
  strTags :: "string option"
  strIngredient :: "nat \<rightharpoonup> string"
  strMeasure :: "nat \<rightharpoonup> string"

record pair =
  ingredient :: string
  measure_str :: string

text \<open>The test \<^verbatim>\<open>ing && ing.trim()\<close> and the pair pushed when it holds.\<close>

definition slot_pair :: "meal \<Rightarrow> nat \<Rightarrow> pair option" where
  "slot_pair m i =
     (case strIngredient m i of
        None \<Rightarrow> None
      | Some ing \<Rightarrow>
          if ing \<noteq> [] \<and> trim ing \<noteq> []
          then Some \<lparr>ingredient = trim ing, measure_str = trim (orEmpty (strMeasure m i))\<rparr>
          else None)"

function extractIngredients_loop :: "meal \<Rightarrow> nat \<Rightarrow> pair list \<Rightarrow> pair list" where
  "extractIngredients_loop m i pairs =
     (if i \<le> 20
      then extractIngredients_loop m (i + 1)
             (case slot_pair m i of None \<Rightarrow> pairs | Some p \<Rightarrow> pairs @ [p])
      else pairs)"
  by pat_completeness auto
termination
  by (relation "measure (\<lambda>(m, i, pairs). 21 - i)") auto

declare extractIngredients_loop.simps [simp del]

definition extractIngredients :: "meal option \<Rightarrow> pair list" where
  "extractIngredients meal =
     (case meal of None \<Rightarrow> [] | Some m \<Rightarrow> extractIngredients_loop m 1 [])"

definition instructionsOf :: "meal option \<Rightarrow> string" where
  "instructionsOf meal = orEmpty (case meal of None \<Rightarrow> None | Some m \<Rightarrow> strInstructions m)"

definition estimateCookTime :: "meal option \<Rightarrow> int" where
  "estimateCookTime meal =
     (let ings = extractIngredients meal;
          base = 10;
          byIngs = length ings * 2;
          bySteps = length (filter (\<lambda>s. length (trim s) > 6)
                              (split_str isSeparator (instructionsOf meal))) * 2;
          total = min 120 (Math_round (real (base + byIngs + bySteps)))
      in total)"

section \<open>Filters\<close>

record cuisine =
  cuisine_label :: string
  cuisine_value :: string

record filters =
  cuisines :: "cuisine list"
  cookTime :: int
  mealTimes :: "string list"
  diet :: "string list"

definition meat_words :: "string list" where
  "meat_words = [''chicken'', ''beef'', ''pork'', ''mutton'', ''lamb'', ''bacon'', ''fish'',
     ''shrimp'', ''prawn'', ''crab'', ''clam'', ''oyster'', ''tuna'', ''salmon'']"

definition sea_words :: "string list" where
  "sea_words = [''fish'', ''shrimp'', ''prawn'', ''crab'', ''clam'', ''oyster'', ''tuna'',
     ''salmon'']"

definition drink_words :: "string list" where
  "drink_words = [''drink'', ''beverage'', ''shake'', ''smoothie'', ''cocktail'', ''juice'']"

text \<open>\<^verbatim>\<open>xs.join(sep)\<close>.\<close>

fun join_str :: "string \<Rightarrow> string list \<Rightarrow> string" where
  "join_str sep [] = []"
| "join_str sep [x] = x"
| "join_str sep (x # y # ys) = x @ sep @ join_str sep (y # ys)"

definition area_of :: "meal \<Rightarrow> string" where
  "area_of m = toLowerCase (orEmpty (strArea m))"

definition category_of :: "meal \<Rightarrow> string" where
  "category_of m = toLowerCase (orEmpty (strCategory m))"

definition cuisineOk :: "filters \<Rightarrow> meal \<Rightarrow> bool" where
  "cuisineOk f m =
     (length (cuisines f) = 0 \<or>
      list_ex (\<lambda>c. includes_str (area_of m) (toLowerCase (cuisine_value c)) \<or>
                   includes_str (category_of m) (toLowerCase (cuisine_value c)))
        (cuisines f))"

definition timeOk :: "filters \<Rightarrow> meal \<Rightarrow> bool" where
  "timeOk f m = (estimateCookTime (Some m) \<le> cookTime f \<or> cookTime f \<ge> 70)"

definition ings_of :: "meal \<Rightarrow> string list" where
  "ings_of m = map (\<lambda>x. toLowerCase (ingredient x)) (extractIngredients (Some m))"

definition isVeg :: "meal \<Rightarrow> bool" where
  "isVeg m = (\<not> test_i meat_words (join_str '' '' (ings_of m)))"

definition isSea :: "meal \<Rightarrow> bool" where
  "isSea m =
     (test_i sea_words (join_str '' '' (ings_of m)) \<or> includes_str (category_of m) ''seafood'')"

definition isDrink :: "meal \<Rightarrow> bool" where
  "isDrink m = test_i drink_words (category_of m @ '' '' @ toStr (strMeal m))"

text \<open>The test that \<^verbatim>\<open>diet.some\<close> applies to one chosen label.\<close>

definition dietMatch :: "meal \<Rightarrow> string \<Rightarrow> bool" where
  "dietMatch m d =
     ((d = ''Veg'' \<and> isVeg m) \<or>
      (d = ''Non-Veg'' \<and> \<not> isVeg m \<and> \<not> isDrink m) \<or>
      (d = ''Sea-food'' \<and> isSea m) \<or>
      (d = ''Drinks'' \<and> isDrink m))"

definition dietOk :: "filters \<Rightarrow> meal \<Rightarrow> bool" where
  "dietOk f m = (length (diet f) = 0 \<or> list_ex (dietMatch m) (diet f))"

text \<open>
  \<^verbatim>\<open>new RegExp(t, "i")\<close> for a meal-time label, a plain word (the interface offers
  Breakfast, Lunch, Snack and Dinner): the label occurs up to case.
\<close>

definition mealTimeOk :: "filters \<Rightarrow> meal \<Rightarrow> bool" where
  "mealTimeOk f m =
     (length (mealTimes f) = 0 \<or>
      list_ex (\<lambda>t. test_i [toLowerCase t] (toStr (strMeal m)) \<or>
                   test_i [toLowerCase t] (orEmpty (strTags m)))
        (mealTimes f))"

definition keep_meal :: "filters \<Rightarrow> meal \<Rightarrow> bool" where
  "keep_meal f m = (cuisineOk f m \<and> timeOk f m \<and> dietOk f m \<and> mealTimeOk f m)"

section \<open>The upstream service\<close>

text \<open>
  A request either rejects (network or parse failure) or resolves with a JSON body. The
  body may be null, and its field \<^verbatim>\<open>meals\<close> may be null or missing; the members of
  the list are objects whose fields are strings or null, as the service documents them. The
  service is a parameter: a function from the argument of a request to its outcome. A run
  asks once for each chosen ingredient (the chosen ingredients are all different) and once
  for each identifier.
\<close>

datatype 'a promise = Rejected | Resolved 'a

record 'a body =
  body_meals :: "'a list option"

record api =
  filterByIngredient :: "string \<Rightarrow> summary body option promise"
  lookupById :: "string \<Rightarrow> meal body option promise"

datatype request = FilterByIngredient string | LookupById string

text \<open>\<^verbatim>\<open>d?.meals || []\<close>\<close>

definition meals_or_empty :: "'a body option \<Rightarrow> 'a list" where
  "meals_or_empty d =
     (case d of None \<Rightarrow> []
      | Some b \<Rightarrow> (case body_meals b of None \<Rightarrow> [] | Some ms \<Rightarrow> ms))"

text \<open>\<^verbatim>\<open>d?.meals?.[0]\<close>\<close>

definition first_meal :: "'a body option \<Rightarrow> 'a option" where
  "first_meal d =
     (case d of None \<Rightarrow> None
      | Some b \<Rightarrow> (case body_meals b of None \<Rightarrow> None | Some [] \<Rightarrow> None | Some (m # ms) \<Rightarrow> Some m))"

text \<open>\<^verbatim>\<open>Promise.all\<close>: rejects when a member rejects, else resolves with all the values.\<close>

fun Promise_all :: "'a promise list \<Rightarrow> 'a list promise" where
  "Promise_all [] = Resolved []"
| "Promise_all (Rejected # ps) = Rejected"
| "Promise_all (Resolved x # ps) =
     (case Promise_all ps of Rejected \<Rightarrow> Rejected | Resolved xs \<Rightarrow> Resolved (x # xs))"

definition then_promise :: "'a promise \<Rightarrow> ('a \<Rightarrow> 'b) \<Rightarrow> 'b promise" where
  "then_promise p g = (case p of Rejected \<Rightarrow> Rejected | Resolved x \<Rightarrow> Resolved (g x))"

text \<open>
  A JavaScript \<^verbatim>\<open>Set\<close> keeps its members once each, in insertion order: a list without
  repetition.
\<close>

definition Set_add :: "'a list \<Rightarrow> 'a \<Rightarrow> 'a list" where
  "Set_add s x = (if x \<in> set s then s else s @ [x])"

definition new_Set :: "'a list \<Rightarrow> 'a list" where
  "new_Set xs = foldl Set_add [] xs"

definition Set_has :: "'a list \<Rightarrow> 'a \<Rightarrow> bool" where
  "Set_has s x = (x \<in> set s)"

section \<open>The search pipeline\<close>

record app_state =
  error :: string
  meals :: "meal list"
  selectedMeal :: "meal option"
  loading :: bool

fun intersect_loop :: "'a list option \<Rightarrow> 'a list list \<Rightarrow> 'a list option" where
  "intersect_loop intersection [] = intersection"
| "intersect_loop intersection (s # mealSets) =
     intersect_loop
       (case intersection of
          None \<Rightarrow> Some (new_Set s)
        | Some xs \<Rightarrow> Some (new_Set (filter (Set_has s) xs)))
       mealSets"

definition mealSets_of :: "summary body option list \<Rightarrow> string list list" where
  "mealSets_of lists0 = map (\<lambda>d. new_Set (map idMeal (meals_or_empty d))) lists0"

definition ids_of :: "summary body option list \<Rightarrow> string list" where
  "ids_of lists0 =
     take 20 (case intersect_loop None (mealSets_of lists0) of None \<Rightarrow> [] | Some xs \<Rightarrow> xs)"

definition fetch_lists :: "api \<Rightarrow> string list \<Rightarrow> summary body option list promise" where
  "fetch_lists a selectedIngredients = Promise_all (map (filterByIngredient a) selectedIngredients)"

definition fetch_details :: "api \<Rightarrow> string list \<Rightarrow> meal option list promise" where
  "fetch_details a ids = Promise_all (map (\<lambda>i. then_promise (lookupById a i) first_meal) ids)"

text \<open>\<^verbatim>\<open>details.filter(Boolean)\<close>\<close>

definition filter_Boolean :: "'a option list \<Rightarrow> 'a list" where
  "filter_Boolean details = List.map_filter (\<lambda>d. d) details"

definition error_message :: string where
  "error_message = ''Could not load recipes. Please try again.''"

text \<open>
  One run of the effect, from the state it finds: the new state and the requests it
  issued, in order.
\<close>

definition run :: "api \<Rightarrow> filters \<Rightarrow> string list \<Rightarrow> app_state \<Rightarrow> app_state \<times> request list" where
  "run a f selectedIngredients st =
     (let st1 = st\<lparr>error := [], meals := [], selectedMeal := None\<rparr>
      in if length selectedIngredients = 0 then (st1, [])
         else
           let st2 = st1\<lparr>loading := True\<rparr>;
               reqs1 = map FilterByIngredient selectedIngredients
           in case fetch_lists a selectedIngredients of
                Rejected \<Rightarrow> (st2\<lparr>error := error_message, loading := False\<rparr>, reqs1)
              | Resolved lists0 \<Rightarrow>
                  (let ids = ids_of lists0;
                       reqs2 = map LookupById ids
                   in (case fetch_details a ids of
                         Rejected \<Rightarrow>
                           (st2\<lparr>error := error_message, loading := False\<rparr>, reqs1 @ reqs2)
                       | Resolved details \<Rightarrow>
                           (let clean = filter_Boolean details;
                                filtered = filter (keep_meal f) clean
                            in (st2\<lparr>meals := filtered,
                                    selectedMeal :=
                                      (case filtered of [] \<Rightarrow> None | m # ms \<Rightarrow> Some m),
                                    loading := False\<rparr>,
                                reqs1 @ reqs2)))))"

section \<open>Autosuggest and favourites\<close>

definition suggestions :: "string \<Rightarrow> string list \<Rightarrow> string list \<Rightarrow> string list" where
  "suggestions debouncedQuery allIngredients selectedIngredients =
     (if debouncedQuery = [] then []
      else
        let q = toLowerCase debouncedQuery
        in take 10 (filter (\<lambda>n. includes_str (toLowerCase n) q \<and> n \<notin> set selectedIngredients)
                      allIngredients))"

definition toggleFavourite :: "summary list \<Rightarrow> meal \<Rightarrow> summary list" where
  "toggleFavourite f meal =
     (case find (\<lambda>x. idMeal x = idMeal meal) f of
        Some exists \<Rightarrow> filter (\<lambda>x. idMeal x \<noteq> idMeal meal) f
      | None \<Rightarrow> f @ [\<lparr>idMeal = idMeal meal, strMeal = strMeal meal\<rparr>])"

section \<open>Quantities of the specification\<close>

text \<open>
  The definitions of this section follow the words of the specification; the theorems
  compare them with the functions of the program.
\<close>

text \<open>
  The candidate list of an ingredient: the identifiers in the response to its request
  (none when the request rejects).
\<close>

definition candidate_ids :: "api \<Rightarrow> string \<Rightarrow> string list" where
  "candidate_ids a ing =
     (case filterByIngredient a ing of
        Rejected \<Rightarrow> []
      | Resolved d \<Rightarrow> map idMeal (meals_or_empty d))"

text \<open>The identifiers that a run looked up, read off its requests.\<close>

fun lookup_ids :: "request list \<Rightarrow> string list" where
  "lookup_ids [] = []"
| "lookup_ids (LookupById i # rs) = i # lookup_ids rs"
| "lookup_ids (FilterByIngredient ing # rs) = lookup_ids rs"

text \<open>The record that a resolved lookup carries, if any; a rejected one carries none.\<close>

definition lookup_record :: "api \<Rightarrow> string \<Rightarrow> meal option" where
  "lookup_record a i = (case lookupById a i of Rejected \<Rightarrow> None | Resolved d \<Rightarrow> first_meal d)"

text \<open>A slot is populated when its name is there and is not blank.\<close>

definition populated :: "meal \<Rightarrow> nat \<Rightarrow> bool" where
  "populated m i = (case strIngredient m i of None \<Rightarrow> False | Some s \<Rightarrow> trim s \<noteq> [])"

text \<open>The number of populated slots among the slots 1 to 20.\<close>

definition ingredientCount :: "meal \<Rightarrow> nat" where
  "ingredientCount m = card {i. 1 \<le> i \<and> i \<le> 20 \<and> populated m i}"

text \<open>
  The segments of a text: the first one runs up to the first separator, the others are the
  segments of the text after that separator.
\<close>

function segments :: "string \<Rightarrow> string list" where
  "segments s =
     (case dropWhile (\<lambda>c. \<not> isSeparator c) s of
        [] \<Rightarrow> [s]
      | c # rest \<Rightarrow> takeWhile (\<lambda>c. \<not> isSeparator c) s # segments rest)"
  by pat_completeness auto
termination
proof (relation "measure length")
  fix s :: string and c rest
  assume "dropWhile (\<lambda>c. \<not> isSeparator c) s = c # rest"
  then have "length (c # rest) \<le> length s"
    by (metis length_dropWhile_le)
  then show "(rest, s) \<in> measure length" by simp
qed simp

declare segments.simps [simp del]

text \<open>The number of segments of the instructions whose trimmed length is more than 6.\<close>

definition qualifyingInstructionSegments :: "meal \<Rightarrow> nat" where
  "qualifyingInstructionSegments m =
     length (filter (\<lambda>s. 6 < length (trim s)) (segments (orEmpty (strInstructions m))))"

text \<open>The test \<^verbatim>\<open>s.trim().length > 6\<close> of a segment.\<close>

definition qualifies :: "string \<Rightarrow> bool" where
  "qualifies s = (6 < length (trim s))"

text \<open>
  A catalog name matches when the query occurs in it up to case and it is not chosen yet.
\<close>

definition matches_query :: "string \<Rightarrow> string list \<Rightarrow> string \<Rightarrow> bool" where
  "matches_query query chosen n =
     ((\<exists>pre suf. toLowerCase n = pre @ toLowerCase query @ suf) \<and> n \<notin> set chosen)"

section \<open>Example data\<close>

text \<open>
  The scenario of two chosen ingredients, chicken and garlic, whose candidate sets share the
  meals B and C, and variants of the service in which one request fails.
\<close>

definition ex_mealB :: meal where
  "ex_mealB = \<lparr>idMeal = ''B'', strMeal = Some ''Garlic Chicken'',
     strCategory = Some ''Chicken'', strArea = Some ''Indian'',
     strInstructions = Some ''Chop the garlic. Fry the chicken until golden. Serve'',
     strTags = None,
     strIngredient = [1 \<mapsto> ''Chicken'', 2 \<mapsto> ''Garlic''],
     strMeasure = [1 \<mapsto> ''500g'']\<rparr>"

definition ex_mealC :: meal where
  "ex_mealC = \<lparr>idMeal = ''C'', strMeal = Some ''Garlic Soup'',
     strCategory = Some ''Starter'', strArea = Some ''French'',
     strInstructions = Some ''Boil'',
     strTags = Some ''Soup,Dinner'',
     strIngredient = [1 \<mapsto> ''Chicken Stock'', 2 \<mapsto> ''Garlic'', 3 \<mapsto> ''Onion''],
     strMeasure = Map.empty\<rparr>"

definition ex_summaries :: "string list \<Rightarrow> summary body option" where
  "ex_summaries is = Some \<lparr>body_meals = Some (map (\<lambda>i. \<lparr>idMeal = i, strMeal = None\<rparr>) is)\<rparr>"

definition ex_filter :: "string \<Rightarrow> summary body option promise" where
  "ex_filter ing =
     (if ing = ''chicken'' then Resolved (ex_summaries [''A'', ''B'', ''C''])
      else if ing = ''garlic'' then Resolved (ex_summaries [''B'', ''C'', ''D''])
      else Resolved (Some \<lparr>body_meals = None\<rparr>))"

definition ex_lookup :: "string \<Rightarrow> meal body option promise" where
  "ex_lookup i =
     (if i = ''B'' then Resolved (Some \<lparr>body_meals = Some [ex_mealB]\<rparr>)
      else if i = ''C'' then Resolved (Some \<lparr>body_meals = Some [ex_mealC]\<rparr>)
      else Resolved (Some \<lparr>body_meals = None\<rparr>))"

definition ex_api :: api where
  "ex_api = \<lparr>filterByIngredient = ex_filter, lookupById = ex_lookup\<rparr>"

definition ex_api_filter_fails :: api where
  "ex_api_filter_fails =
     \<lparr>filterByIngredient = (\<lambda>ing. if ing = ''garlic'' then Rejected else ex_filter ing),
      lookupById = ex_lookup\<rparr>"

definition ex_api_lookup_fails :: api where
  "ex_api_lookup_fails =
     \<lparr>filterByIngredient = ex_filter,
      lookupById = (\<lambda>i. if i = ''C'' then Rejected else ex_lookup i)\<rparr>"

definition ex_api_lookup_misses :: api where
  "ex_api_lookup_misses =
     \<lparr>filterByIngredient = ex_filter,
      lookupById = (\<lambda>i. if i = ''C'' then Resolved (Some \<lparr>body_meals = None\<rparr>) else ex_lookup i)\<rparr>"

definition ex_filters :: filters where
  "ex_filters = \<lparr>cuisines = [], cookTime = 90, mealTimes = [], diet = []\<rparr>"

definition ex_state :: app_state where
  "ex_state = \<lparr>error = [], meals = [], selectedMeal = None, loading = False\<rparr>"

definition ex_favourites :: "summary list" where
  "ex_favourites = [\<lparr>idMeal = ''52772'', strMeal = Some ''Teriyaki Chicken Casserole''\<rparr>,
                    \<lparr>idMeal = ''B'', strMeal = Some ''Garlic Chicken''\<rparr>]"

definition ex_catalog :: "string list" where
  "ex_catalog = [''Chicken'', ''Chicken Stock'', ''Garlic'', ''Garlic Clove'', ''Onion'']"

text \<open>A record with no ingredient slot, to be given instructions of different lengths.\<close>

definition ex_mealM :: "string \<Rightarrow> meal" where
  "ex_mealM instructions = \<lparr>idMeal = ''M'', strMeal = Some ''Cake'',
     strCategory = Some ''Dessert'', strArea = None,
     strInstructions = Some instructions,
     strTags = None,
     strIngredient = Map.empty,
     strMeasure = Map.empty\<rparr>"

section \<open>Properties of the search pipeline\<close>

lemma Promise_all_Rejected_iff: "Promise_all ps = Rejected \<longleftrightarrow> Rejected \<in> set ps"
  by (induction ps rule: Promise_all.induct) (auto split: promise.splits)

lemma Promise_all_Resolved:
  "Promise_all ps = Resolved xs \<Longrightarrow> ps = map Resolved xs"
  by (induction ps arbitrary: xs rule: Promise_all.induct) (auto split: promise.splits)

text \<open>
  C8: with no chosen ingredient the run stops after clearing the state: the result list
  is empty, no recipe is selected, the error text is empty, and no request is issued.
\<close>

theorem run_empty_ingredients:
  "run a f [] st = (st\<lparr>error := [], meals := [], selectedMeal := None\<rparr>, [])"
  by (simp add: run_def)

theorem run_empty_ingredients_witness:
  "run ex_api ex_filters [] ex_state = (ex_state, [])"
  using run_empty_ingredients [of ex_api ex_filters ex_state] by (simp add: ex_state_def)

text \<open>
  C3: with at least one chosen ingredient, if the candidate request of any one of them
  rejects, the run ends with an empty result list, no selected recipe and the one generic
  error text; the candidate requests were all issued and no lookup was.
\<close>

theorem run_candidate_fetch_failure:
  assumes "selectedIngredients \<noteq> []"
    and "ing \<in> set selectedIngredients"
    and "filterByIngredient a ing = Rejected"
  shows "meals (fst (run a f selectedIngredients st)) = [] \<and>
         selectedMeal (fst (run a f selectedIngredients st)) = None \<and>
         error (fst (run a f selectedIngredients st)) = error_message \<and>
         error_message \<noteq> [] \<and>
         loading (fst (run a f selectedIngredients st)) = False \<and>
         snd (run a f selectedIngredients st) = map FilterByIngredient selectedIngredients"
proof -
  have "Rejected \<in> set (map (filterByIngredient a) selectedIngredients)"
    using assms(2,3) by force
  then have "fetch_lists a selectedIngredients = Rejected"
    by (simp only: fetch_lists_def Promise_all_Rejected_iff)
  with assms(1) show ?thesis
    by (simp add: run_def error_message_def)
qed

theorem run_candidate_fetch_failure_witness:
  "filterByIngredient ex_api_filter_fails ''garlic'' = Rejected \<and>
   meals (fst (run ex_api_filter_fails ex_filters [''chicken'', ''garlic''] ex_state)) = [] \<and>
   error (fst (run ex_api_filter_fails ex_filters [''chicken'', ''garlic''] ex_state))
     = ''Could not load recipes. Please try again.'' \<and>
   snd (run ex_api_filter_fails ex_filters [''chicken'', ''garlic''] ex_state)
     = [FilterByIngredient ''chicken'', FilterByIngredient ''garlic'']"
proof -
  have h1: "[''chicken'', ''garlic''] \<noteq> []" by simp
  have h2: "''garlic'' \<in> set [''chicken'', ''garlic'']" by simp
  have h3: "filterByIngredient ex_api_filter_fails ''garlic'' = Rejected"
    by (simp add: ex_api_filter_fails_def)
  from run_candidate_fetch_failure [OF h1 h2 h3, of ex_filters ex_state] h3
  show ?thesis by (simp add: error_message_def)
qed

lemma keep_meal_no_filters:
  assumes "cuisines f = []" "diet f = []" "mealTimes f = []" "cookTime f \<ge> 70"
  shows "keep_meal f m"
  using assms by (simp add: keep_meal_def cuisineOk_def timeOk_def dietOk_def mealTimeOk_def)

text \<open>
  C5: with no cuisine, diet or meal-time chosen and a maximum of 70 minutes or more,
  every fetched record passes the filter; a run whose requests all resolve shows exactly the
  records that the lookups returned.
\<close>

theorem no_filters_retains_all:
  assumes "cuisines f = []" and "diet f = []" and "mealTimes f = []" and "cookTime f \<ge> 70"
  shows "keep_meal f m \<and>
         filter (keep_meal f) clean = clean \<and>
         (selectedIngredients \<noteq> [] \<longrightarrow>
          fetch_lists a selectedIngredients = Resolved lists0 \<longrightarrow>
          fetch_details a (ids_of lists0) = Resolved details \<longrightarrow>
          meals (fst (run a f selectedIngredients st)) = filter_Boolean details \<and>
          error (fst (run a f selectedIngredients st)) = [])"
proof -
  have k: "\<And>x. keep_meal f x" using assms by (rule keep_meal_no_filters)
  then have "filter (keep_meal f) xs = xs" for xs by simp
  then show ?thesis using k by (simp add: run_def Let_def)
qed

theorem no_filters_retains_all_witness:
  "keep_meal ex_filters ex_mealB \<and>
   meals (fst (run ex_api ex_filters [''chicken'', ''garlic''] ex_state)) = [ex_mealB, ex_mealC]"
proof -
  have f: "cuisines ex_filters = []" "diet ex_filters = []" "mealTimes ex_filters = []"
    "cookTime ex_filters \<ge> 70"
    by (simp_all add: ex_filters_def)
  have l: "fetch_lists ex_api [''chicken'', ''garlic'']
    = Resolved [ex_summaries [''A'', ''B'', ''C''], ex_summaries [''B'', ''C'', ''D'']]"
    by (simp add: fetch_lists_def ex_api_def ex_filter_def)
  have i: "ids_of [ex_summaries [''A'', ''B'', ''C''], ex_summaries [''B'', ''C'', ''D'']] = [''B'', ''C'']"
    by code_simp
  have d: "fetch_details ex_api [''B'', ''C''] = Resolved [Some ex_mealB, Some ex_mealC]"
    by (simp add: fetch_details_def ex_api_def ex_lookup_def then_promise_def first_meal_def)
  from no_filters_retains_all [OF f, of ex_mealB "[]" "[''chicken'', ''garlic'']" ex_api
      "[ex_summaries [''A'', ''B'', ''C''], ex_summaries [''B'', ''C'', ''D'']]"
      "[Some ex_mealB, Some ex_mealC]" ex_state] l i d
  show ?thesis by (simp add: filter_Boolean_def List.map_filter_def)
qed

text \<open>
  C10: no meal matches both the label Veg and the label Non-Veg: Veg asks for
  \<open>isVeg\<close>, Non-Veg for its negation (and for a meal that is not a drink).
\<close>

theorem veg_nonveg_exclusive:
  "\<not> (dietMatch m ''Veg'' \<and> dietMatch m ''Non-Veg'') \<and>
   dietMatch m ''Veg'' = isVeg m \<and>
   dietMatch m ''Non-Veg'' = (\<not> isVeg m \<and> \<not> isDrink m)"
  by (auto simp add: dietMatch_def)

theorem veg_nonveg_exclusive_witness:
  "dietMatch ex_mealB ''Non-Veg'' \<and> \<not> dietMatch ex_mealB ''Veg''"
proof -
  have "dietMatch ex_mealB ''Non-Veg''" by code_simp
  with veg_nonveg_exclusive [of ex_mealB] show ?thesis by blast
qed

lemma lookup_ids_append: "lookup_ids (xs @ ys) = lookup_ids xs @ lookup_ids ys"
  by (induction xs rule: lookup_ids.induct) auto

lemma lookup_ids_filters: "lookup_ids (map FilterByIngredient xs) = []"
  by (induction xs) auto

lemma lookup_ids_lookups: "lookup_ids (map LookupById xs) = xs"
  by (induction xs) auto

lemma foldl_Set_add:
  "set (foldl Set_add acc xs) = set acc \<union> set xs \<and> (distinct acc \<longrightarrow> distinct (foldl Set_add acc xs))"
  by (induction xs arbitrary: acc) (auto simp add: Set_add_def)

lemma set_new_Set: "set (new_Set xs) = set xs"
  by (simp add: new_Set_def foldl_Set_add)

lemma distinct_new_Set: "distinct (new_Set xs)"
  by (simp add: new_Set_def foldl_Set_add)

lemma intersect_loop_Some:
  "\<exists>ys. intersect_loop (Some xs) ss = Some ys \<and> set ys = set xs \<inter> (\<Inter>s\<in>set ss. set s) \<and>
        (distinct xs \<longrightarrow> distinct ys)"
proof (induction ss arbitrary: xs)
  case Nil
  then show ?case by simp
next
  case (Cons s ss)
  from Cons.IH [of "new_Set (filter (Set_has s) xs)"]
  show ?case by (auto simp add: set_new_Set distinct_new_Set Set_has_def)
qed

lemma intersect_loop_None:
  assumes "ss \<noteq> []"
  shows "\<exists>ys. intersect_loop None ss = Some ys \<and> set ys = (\<Inter>s\<in>set ss. set s) \<and> distinct ys"
proof -
  from assms obtain s ss' where ss: "ss = s # ss'" by (cases ss) auto
  from intersect_loop_Some [of "new_Set s" ss']
  show ?thesis by (auto simp add: ss set_new_Set distinct_new_Set)
qed

lemma length_ids_of: "length (ids_of ls) \<le> 20"
  by (simp add: ids_of_def)

lemma ids_of_props:
  assumes "ls \<noteq> []"
  shows "distinct (ids_of ls) \<and>
         set (ids_of ls) \<subseteq> (\<Inter>d\<in>set ls. set (map idMeal (meals_or_empty d)))"
proof -
  have "mealSets_of ls \<noteq> []" using assms by (simp add: mealSets_of_def)
  from intersect_loop_None [OF this] obtain ys where
    ys: "intersect_loop None (mealSets_of ls) = Some ys"
      "set ys = (\<Inter>s\<in>set (mealSets_of ls). set s)" "distinct ys" by blast
  have "(\<Inter>s\<in>set (mealSets_of ls). set s) = (\<Inter>d\<in>set ls. set (map idMeal (meals_or_empty d)))"
    by (simp add: mealSets_of_def set_new_Set)
  with ys have "set (take 20 ys) \<subseteq> (\<Inter>d\<in>set ls. set (map idMeal (meals_or_empty d)))"
    using set_take_subset [of 20 ys] by simp
  with ys show ?thesis by (simp add: ids_of_def)
qed

lemma fetch_lists_Resolved:
  assumes "fetch_lists a ings = Resolved ls" and "ing \<in> set ings"
  shows "\<exists>d\<in>set ls. filterByIngredient a ing = Resolved d"
proof -
  from assms(1) have "map (filterByIngredient a) ings = map Resolved ls"
    unfolding fetch_lists_def by (rule Promise_all_Resolved)
  then have "filterByIngredient a ing \<in> set (map Resolved ls)"
    using assms(2) by (metis image_eqI set_map)
  then show ?thesis by auto
qed

lemma fetch_lists_length:
  assumes "fetch_lists a ings = Resolved ls"
  shows "length ls = length ings"
proof -
  from assms(1) have "map (filterByIngredient a) ings = map Resolved ls"
    unfolding fetch_lists_def by (rule Promise_all_Resolved)
  then show ?thesis by (metis length_map)
qed

lemma ids_of_candidates:
  assumes "fetch_lists a ings = Resolved ls" and "ings \<noteq> []"
    and "i \<in> set (ids_of ls)" and "ing \<in> set ings"
  shows "i \<in> set (candidate_ids a ing)"
proof -
  from fetch_lists_Resolved [OF assms(1,4)] obtain d where
    d: "d \<in> set ls" "filterByIngredient a ing = Resolved d" by blast
  have "ls \<noteq> []" using fetch_lists_length [OF assms(1)] assms(2) by auto
  from ids_of_props [OF this] assms(3) d(1)
  have "i \<in> set (map idMeal (meals_or_empty d))" by blast
  with d(2) show ?thesis by (simp add: candidate_ids_def)
qed

lemma fetch_details_Resolved:
  assumes "fetch_details a ids = Resolved details"
  shows "length details = length ids \<and>
         (\<forall>m. Some m \<in> set details \<longrightarrow>
            (\<exists>i\<in>set ids. then_promise (lookupById a i) first_meal = Resolved (Some m)))"
proof -
  from assms have eq: "map (\<lambda>i. then_promise (lookupById a i) first_meal) ids = map Resolved details"
    unfolding fetch_details_def by (rule Promise_all_Resolved)
  then have len: "length details = length ids" by (metis length_map)
  have "\<exists>i\<in>set ids. then_promise (lookupById a i) first_meal = Resolved (Some m)"
    if "Some m \<in> set details" for m
  proof -
    from that obtain k where k: "k < length details" "details ! k = Some m"
      by (auto simp add: in_set_conv_nth)
    from eq k len have "then_promise (lookupById a (ids ! k)) first_meal = Resolved (Some m)"
      by (metis nth_map)
    moreover have "ids ! k \<in> set ids" using k len by simp
    ultimately show ?thesis by blast
  qed
  with len show ?thesis by blast
qed

lemma set_filter_Boolean: "set (filter_Boolean details) = {m. Some m \<in> set details}"
  by (induction details)
    (auto simp add: filter_Boolean_def split: option.splits)

lemma length_filter_Boolean: "length (filter_Boolean details) \<le> length details"
  by (simp add: filter_Boolean_def List.map_filter_def)

lemma run_nonempty:
  assumes "selectedIngredients \<noteq> []"
  shows "run a f selectedIngredients st =
     (case fetch_lists a selectedIngredients of
        Rejected \<Rightarrow>
          (st\<lparr>error := error_message, meals := [], selectedMeal := None, loading := False\<rparr>,
           map FilterByIngredient selectedIngredients)
      | Resolved ls \<Rightarrow>
          (case fetch_details a (ids_of ls) of
             Rejected \<Rightarrow>
               (st\<lparr>error := error_message, meals := [], selectedMeal := None, loading := False\<rparr>,
                map FilterByIngredient selectedIngredients @ map LookupById (ids_of ls))
           | Resolved details \<Rightarrow>
               (st\<lparr>error := [], meals := filter (keep_meal f) (filter_Boolean details),
                   selectedMeal := (case filter (keep_meal f) (filter_Boolean details) of
                                      [] \<Rightarrow> None | m # ms \<Rightarrow> Some m),
                   loading := False\<rparr>,
                map FilterByIngredient selectedIngredients @ map LookupById (ids_of ls))))"
  using assms by (simp add: run_def Let_def split: promise.splits)

text \<open>
  C1: with at least one chosen ingredient, the run looks up at most 20 identifiers, all
  different, and each of them is in the candidate list of every chosen ingredient; the
  result holds at most 20 records, each of them the record that the lookup of one of those
  identifiers returned; and when the service answers a lookup with the record of the
  identifier asked for, the identifier of every record of the result is in the candidate
  list of every chosen ingredient.
\<close>

theorem run_result_within_intersection:
  assumes "selectedIngredients \<noteq> []"
  shows "length (lookup_ids (snd (run a f selectedIngredients st))) \<le> 20 \<and>
         distinct (lookup_ids (snd (run a f selectedIngredients st))) \<and>
         (\<forall>i\<in>set (lookup_ids (snd (run a f selectedIngredients st))).
            \<forall>ing\<in>set selectedIngredients. i \<in> set (candidate_ids a ing)) \<and>
         length (meals (fst (run a f selectedIngredients st))) \<le> 20 \<and>
         (\<forall>m\<in>set (meals (fst (run a f selectedIngredients st))).
            \<exists>i\<in>set (lookup_ids (snd (run a f selectedIngredients st))).
              then_promise (lookupById a i) first_meal = Resolved (Some m)) \<and>
         ((\<forall>i m. then_promise (lookupById a i) first_meal = Resolved (Some m) \<longrightarrow> idMeal m = i) \<longrightarrow>
          (\<forall>m\<in>set (meals (fst (run a f selectedIngredients st))).
             \<forall>ing\<in>set selectedIngredients. idMeal m \<in> set (candidate_ids a ing)))"
proof (cases "fetch_lists a selectedIngredients")
  case Rejected
  then show ?thesis
    by (simp add: run_nonempty [OF assms] lookup_ids_filters)
next
  case (Resolved ls)
  have ne: "ls \<noteq> []" using fetch_lists_length [OF Resolved] assms by auto
  have ids: "length (ids_of ls) \<le> 20" "distinct (ids_of ls)"
    "\<forall>i\<in>set (ids_of ls). \<forall>ing\<in>set selectedIngredients. i \<in> set (candidate_ids a ing)"
    using length_ids_of ids_of_props [OF ne] ids_of_candidates [OF Resolved assms] by blast+
  show ?thesis
  proof (cases "fetch_details a (ids_of ls)")
    case Rejected
    with Resolved ids show ?thesis
      by (simp add: run_nonempty [OF assms] lookup_ids_append lookup_ids_filters lookup_ids_lookups)
  next
    case det: (Resolved details)
    let ?ms = "filter (keep_meal f) (filter_Boolean details)"
    have r: "meals (fst (run a f selectedIngredients st)) = ?ms"
      "lookup_ids (snd (run a f selectedIngredients st)) = ids_of ls"
      using Resolved det
      by (simp_all add: run_nonempty [OF assms] lookup_ids_append lookup_ids_filters lookup_ids_lookups)
    from fetch_details_Resolved [OF det] have
      len: "length details = length (ids_of ls)" and
      src: "\<And>m. Some m \<in> set details \<Longrightarrow>
              \<exists>i\<in>set (ids_of ls). then_promise (lookupById a i) first_meal = Resolved (Some m)"
      by blast+
    have "length ?ms \<le> length (filter_Boolean details)" by simp
    also have "\<dots> \<le> length details" by (rule length_filter_Boolean)
    finally have l20: "length ?ms \<le> 20" using len ids(1) by simp
    have from_lookup: "\<exists>i\<in>set (ids_of ls). then_promise (lookupById a i) first_meal = Resolved (Some m)"
      if "m \<in> set ?ms" for m
      using that src by (simp add: set_filter_Boolean)
    have faithful: "idMeal m \<in> set (candidate_ids a ing)"
      if "\<forall>i m. then_promise (lookupById a i) first_meal = Resolved (Some m) \<longrightarrow> idMeal m = i"
        "m \<in> set ?ms" "ing \<in> set selectedIngredients" for m ing
    proof -
      from from_lookup [OF that(2)] obtain i where
        i: "i \<in> set (ids_of ls)" "then_promise (lookupById a i) first_meal = Resolved (Some m)"
        by blast
      with that(1) have "idMeal m = i" by blast
      with i(1) ids(3) that(3) show ?thesis by blast
    qed
    show ?thesis
      unfolding r using ids l20 from_lookup faithful by blast
  qed
qed

lemma ex_fetch_lists:
  "fetch_lists ex_api [''chicken'', ''garlic'']
     = Resolved [ex_summaries [''A'', ''B'', ''C''], ex_summaries [''B'', ''C'', ''D'']]"
  by (simp add: fetch_lists_def ex_api_def ex_filter_def)

lemma ex_ids_of:
  "ids_of [ex_summaries [''A'', ''B'', ''C''], ex_summaries [''B'', ''C'', ''D'']] = [''B'', ''C'']"
  by code_simp

lemma ex_run:
  "run ex_api ex_filters [''chicken'', ''garlic''] ex_state
     = (ex_state\<lparr>meals := [ex_mealB, ex_mealC], selectedMeal := Some ex_mealB\<rparr>,
        [FilterByIngredient ''chicken'', FilterByIngredient ''garlic'',
         LookupById ''B'', LookupById ''C''])"
proof -
  have d: "fetch_details ex_api [''B'', ''C''] = Resolved [Some ex_mealB, Some ex_mealC]"
    by (simp add: fetch_details_def ex_api_def ex_lookup_def then_promise_def first_meal_def)
  have k: "keep_meal ex_filters m" for m
    by (rule keep_meal_no_filters) (simp_all add: ex_filters_def)
  show ?thesis
    by (simp add: run_nonempty ex_fetch_lists ex_ids_of d k filter_Boolean_def
        ex_state_def)
qed

theorem run_result_within_intersection_witness:
  "meals (fst (run ex_api ex_filters [''chicken'', ''garlic''] ex_state)) = [ex_mealB, ex_mealC] \<and>
   lookup_ids (snd (run ex_api ex_filters [''chicken'', ''garlic''] ex_state)) = [''B'', ''C''] \<and>
   candidate_ids ex_api ''chicken'' = [''A'', ''B'', ''C''] \<and>
   candidate_ids ex_api ''garlic'' = [''B'', ''C'', ''D''] \<and>
   idMeal ex_mealC \<in> set (candidate_ids ex_api ''chicken'') \<and>
   idMeal ex_mealC \<in> set (candidate_ids ex_api ''garlic'')"
proof -
  have ne: "[''chicken'', ''garlic''] \<noteq> []" by simp
  have faithful:
    "\<forall>i m. then_promise (lookupById ex_api i) first_meal = Resolved (Some m) \<longrightarrow> idMeal m = i"
    by (simp add: ex_api_def ex_lookup_def then_promise_def first_meal_def ex_mealB_def ex_mealC_def)
  have c: "candidate_ids ex_api ''chicken'' = [''A'', ''B'', ''C'']"
    "candidate_ids ex_api ''garlic'' = [''B'', ''C'', ''D'']"
    by (simp_all add: candidate_ids_def ex_api_def ex_filter_def ex_summaries_def meals_or_empty_def)
  from run_result_within_intersection [OF ne, of ex_api ex_filters ex_state] faithful
  have "\<forall>m\<in>set (meals (fst (run ex_api ex_filters [''chicken'', ''garlic''] ex_state))).
          \<forall>ing\<in>set [''chicken'', ''garlic'']. idMeal m \<in> set (candidate_ids ex_api ing)"
    by blast
  then have "idMeal ex_mealC \<in> set (candidate_ids ex_api ''chicken'') \<and>
             idMeal ex_mealC \<in> set (candidate_ids ex_api ''garlic'')"
    by (simp add: ex_run)
  then show ?thesis using c by (simp add: ex_run)
qed

text \<open>
  C4, as stated, fails: the lookup of C rejects while the lookup of B resolves with a record
  that passes the filter, and the run ends with the error text and an empty result list.
\<close>

theorem lookup_rejection_counterexample:
  "lookupById ex_api_lookup_fails ''B'' = Resolved (Some \<lparr>body_meals = Some [ex_mealB]\<rparr>) \<and>
   lookupById ex_api_lookup_fails ''C'' = Rejected \<and>
   keep_meal ex_filters ex_mealB \<and>
   lookup_ids (snd (run ex_api_lookup_fails ex_filters [''chicken'', ''garlic''] ex_state))
     = [''B'', ''C''] \<and>
   meals (fst (run ex_api_lookup_fails ex_filters [''chicken'', ''garlic''] ex_state)) = [] \<and>
   error (fst (run ex_api_lookup_fails ex_filters [''chicken'', ''garlic''] ex_state))
     = ''Could not load recipes. Please try again.''"
proof -
  have l: "fetch_lists ex_api_lookup_fails [''chicken'', ''garlic'']
     = Resolved [ex_summaries [''A'', ''B'', ''C''], ex_summaries [''B'', ''C'', ''D'']]"
    by (simp add: fetch_lists_def ex_api_lookup_fails_def ex_filter_def)
  have d: "fetch_details ex_api_lookup_fails [''B'', ''C''] = Rejected"
    by (simp add: fetch_details_def ex_api_lookup_fails_def ex_lookup_def then_promise_def
        first_meal_def)
  have k: "keep_meal ex_filters ex_mealB"
    by (rule keep_meal_no_filters) (simp_all add: ex_filters_def)
  have b: "lookupById ex_api_lookup_fails ''B'' = Resolved (Some \<lparr>body_meals = Some [ex_mealB]\<rparr>)"
    "lookupById ex_api_lookup_fails ''C'' = Rejected"
    by (simp_all add: ex_api_lookup_fails_def ex_lookup_def)
  show ?thesis using k b
    by (simp add: run_nonempty l ex_ids_of d error_message_def lookup_ids_append
        lookup_ids_filters)
qed

lemma fetch_details_all_resolved:
  assumes "\<forall>i\<in>set ids. lookupById a i \<noteq> Rejected"
  shows "fetch_details a ids = Resolved (map (lookup_record a) ids)"
  using assms
proof (induction ids)
  case Nil
  then show ?case by (simp add: fetch_details_def)
next
  case (Cons i ids)
  then obtain d where d: "lookupById a i = Resolved d" by (cases "lookupById a i") auto
  from Cons have "fetch_details a ids = Resolved (map (lookup_record a) ids)" by simp
  with d show ?case by (simp add: fetch_details_def then_promise_def lookup_record_def)
qed

lemma fetch_details_some_rejected:
  assumes "i \<in> set ids" and "lookupById a i = Rejected"
  shows "fetch_details a ids = Rejected"
proof -
  have "Rejected \<in> set (map (\<lambda>i. then_promise (lookupById a i) first_meal) ids)"
    using assms by (force simp add: then_promise_def)
  then show ?thesis by (simp only: fetch_details_def Promise_all_Rejected_iff)
qed

text \<open>
  C4, amended: when the candidate requests resolved, a lookup that resolves without a record
  (a null body, or a null, missing or empty list of meals) only drops its identifier, and
  the run ends without error on the records of the other lookups that pass the filter; a
  lookup that rejects ends the run with the error text and an empty result list.
\<close>

theorem lookup_miss_dropped_rejection_fatal:
  assumes "selectedIngredients \<noteq> []"
    and "fetch_lists a selectedIngredients = Resolved ls"
  shows "((\<forall>i\<in>set (ids_of ls). lookupById a i \<noteq> Rejected) \<longrightarrow>
            error (fst (run a f selectedIngredients st)) = [] \<and>
            meals (fst (run a f selectedIngredients st))
              = filter (keep_meal f) (List.map_filter (lookup_record a) (ids_of ls))) \<and>
         ((\<exists>i\<in>set (ids_of ls). lookupById a i = Rejected) \<longrightarrow>
            error (fst (run a f selectedIngredients st)) = error_message \<and>
            meals (fst (run a f selectedIngredients st)) = [])"
proof (intro conjI impI)
  assume "\<forall>i\<in>set (ids_of ls). lookupById a i \<noteq> Rejected"
  then have d: "fetch_details a (ids_of ls) = Resolved (map (lookup_record a) (ids_of ls))"
    by (rule fetch_details_all_resolved)
  have m: "filter_Boolean (map g xs) = List.map_filter g xs" for g :: "string \<Rightarrow> meal option" and xs
    by (induction xs) (simp_all add: filter_Boolean_def split: option.splits)
  show "error (fst (run a f selectedIngredients st)) = []"
    by (simp add: run_nonempty [OF assms(1)] assms(2) d)
  show "meals (fst (run a f selectedIngredients st))
          = filter (keep_meal f) (List.map_filter (lookup_record a) (ids_of ls))"
    by (simp add: run_nonempty [OF assms(1)] assms(2) d m)
next
  assume "\<exists>i\<in>set (ids_of ls). lookupById a i = Rejected"
  then have d: "fetch_details a (ids_of ls) = Rejected"
    using fetch_details_some_rejected by blast
  show "error (fst (run a f selectedIngredients st)) = error_message"
    by (simp add: run_nonempty [OF assms(1)] assms(2) d)
  show "meals (fst (run a f selectedIngredients st)) = []"
    by (simp add: run_nonempty [OF assms(1)] assms(2) d)
qed

theorem lookup_miss_dropped_rejection_fatal_witness:
  "lookupById ex_api_lookup_misses ''C'' = Resolved (Some \<lparr>body_meals = None\<rparr>) \<and>
   error (fst (run ex_api_lookup_misses ex_filters [''chicken'', ''garlic''] ex_state)) = [] \<and>
   meals (fst (run ex_api_lookup_misses ex_filters [''chicken'', ''garlic''] ex_state)) = [ex_mealB] \<and>
   lookupById ex_api_lookup_fails ''C'' = Rejected \<and>
   error (fst (run ex_api_lookup_fails ex_filters [''chicken'', ''garlic''] ex_state))
     = ''Could not load recipes. Please try again.'' \<and>
   meals (fst (run ex_api_lookup_fails ex_filters [''chicken'', ''garlic''] ex_state)) = []"
proof -
  let ?ls = "[ex_summaries [''A'', ''B'', ''C''], ex_summaries [''B'', ''C'', ''D'']]"
  have ne: "[''chicken'', ''garlic''] \<noteq> []" by simp
  have l1: "fetch_lists ex_api_lookup_misses [''chicken'', ''garlic''] = Resolved ?ls"
    by (simp add: fetch_lists_def ex_api_lookup_misses_def ex_filter_def)
  have l2: "fetch_lists ex_api_lookup_fails [''chicken'', ''garlic''] = Resolved ?ls"
    by (simp add: fetch_lists_def ex_api_lookup_fails_def ex_filter_def)
  have h1: "\<forall>i\<in>set (ids_of ?ls). lookupById ex_api_lookup_misses i \<noteq> Rejected"
    by (simp add: ex_ids_of ex_api_lookup_misses_def ex_lookup_def)
  have h2: "\<exists>i\<in>set (ids_of ?ls). lookupById ex_api_lookup_fails i = Rejected"
    by (simp add: ex_ids_of ex_api_lookup_fails_def)
  have k: "keep_meal ex_filters ex_mealB"
    by (rule keep_meal_no_filters) (simp_all add: ex_filters_def)
  have r: "List.map_filter (lookup_record ex_api_lookup_misses) [''B'', ''C''] = [ex_mealB]"
    by (simp add: lookup_record_def ex_api_lookup_misses_def ex_lookup_def
        first_meal_def)
  have c: "lookupById ex_api_lookup_misses ''C'' = Resolved (Some \<lparr>body_meals = None\<rparr>)"
    "lookupById ex_api_lookup_fails ''C'' = Rejected"
    by (simp_all add: ex_api_lookup_misses_def ex_api_lookup_fails_def)
  from lookup_miss_dropped_rejection_fatal [OF ne l1, of ex_filters ex_state] h1
  have "error (fst (run ex_api_lookup_misses ex_filters [''chicken'', ''garlic''] ex_state)) = [] \<and>
        meals (fst (run ex_api_lookup_misses ex_filters [''chicken'', ''garlic''] ex_state))
          = filter (keep_meal ex_filters)
              (List.map_filter (lookup_record ex_api_lookup_misses) (ids_of ?ls))"
    by blast
  then have a: "error (fst (run ex_api_lookup_misses ex_filters [''chicken'', ''garlic''] ex_state)) = [] \<and>
        meals (fst (run ex_api_lookup_misses ex_filters [''chicken'', ''garlic''] ex_state)) = [ex_mealB]"
    unfolding ex_ids_of r using k by simp
  from lookup_miss_dropped_rejection_fatal [OF ne l2, of ex_filters ex_state] h2
  have b: "error (fst (run ex_api_lookup_fails ex_filters [''chicken'', ''garlic''] ex_state))
          = error_message \<and>
        meals (fst (run ex_api_lookup_fails ex_filters [''chicken'', ''garlic''] ex_state)) = []"
    by blast
  from a b c show ?thesis by (simp add: error_message_def)
qed

section \<open>Properties of the cooking-time estimate\<close>

lemma segments_Nil: "segments [] = [[]]"
  by (simp add: segments.simps)

lemma segments_sep: "isSeparator c \<Longrightarrow> segments (c # cs) = [] # segments cs"
  by (simp add: segments.simps [of "c # cs"])

lemma segments_nonsep:
  "\<not> isSeparator c \<Longrightarrow> segments (c # cs) = (c # hd (segments cs)) # tl (segments cs)"
  by (cases "dropWhile (\<lambda>c. \<not> isSeparator c) cs")
    (simp_all add: segments.simps [of "c # cs"] segments.simps [of cs]
      del: dropWhile_eq_Nil_conv)

lemma segments_not_Nil: "segments s \<noteq> []"
  by (subst segments.simps) (simp split: list.splits)

lemma split_loop_segments:
  "split_loop isSeparator cur s = (cur @ hd (segments s)) # tl (segments s)"
  by (induction s arbitrary: cur)
    (simp_all add: segments_Nil segments_sep segments_nonsep segments_not_Nil)

lemma split_str_segments: "split_str isSeparator s = segments s"
  by (simp add: split_str_def split_loop_segments segments_not_Nil)

lemma extractIngredients_loop_eq:
  "extractIngredients_loop m i pairs = pairs @ List.map_filter (slot_pair m) [i..<21]"
proof (induction m i pairs rule: extractIngredients_loop.induct)
  case (1 m i pairs)
  show ?case
  proof (cases "i \<le> 20")
    case True
    then have u: "[i..<21] = i # [i + 1..<21]" by (simp add: upt_conv_Cons)
    from True 1 show ?thesis
      by (subst extractIngredients_loop.simps)
        (simp add: u split: option.splits)
  next
    case False
    then show ?thesis
      by (subst extractIngredients_loop.simps) simp
  qed
qed

lemma length_map_filter:
  "length (List.map_filter g xs) = length (filter (\<lambda>x. g x \<noteq> None) xs)"
  by (induction xs) (simp_all split: option.splits)

lemma trim_Nil: "trim [] = []"
  by (simp add: trim_def)

lemma slot_pair_populated: "(\<exists>p. slot_pair m i = Some p) \<longleftrightarrow> populated m i"
  by (auto simp add: slot_pair_def populated_def trim_Nil split: option.splits)

lemma length_extractIngredients:
  "length (extractIngredients (Some m)) = length (filter (populated m) [1..<21])"
  by (simp add: extractIngredients_def extractIngredients_loop_eq length_map_filter
      slot_pair_populated)

lemma ingredientCount_filter: "ingredientCount m = length (filter (populated m) [1..<21])"
proof -
  have "{i. 1 \<le> i \<and> i \<le> 20 \<and> populated m i} = set (filter (populated m) [1..<21])"
    by auto
  moreover have "distinct (filter (populated m) [1..<21])" by simp
  ultimately show ?thesis
    unfolding ingredientCount_def by (simp only: distinct_card)
qed

lemma Math_round_of_nat: "Math_round (real n) = int n"
  unfolding Math_round_def by linarith

lemma estimateCookTime_counts:
  "estimateCookTime (Some m)
     = min 120 (10 + 2 * int (ingredientCount m) + 2 * int (qualifyingInstructionSegments m))"
proof -
  have "estimateCookTime (Some m)
      = min 120 (Math_round (real (10 + length (extractIngredients (Some m)) * 2
          + length (filter (\<lambda>s. length (trim s) > 6)
              (split_str isSeparator (instructionsOf (Some m)))) * 2)))"
    by (simp only: estimateCookTime_def Let_def)
  then show ?thesis
    unfolding Math_round_of_nat
    by (simp add: length_extractIngredients ingredientCount_filter
        qualifyingInstructionSegments_def split_str_segments instructionsOf_def)
qed

text \<open>
  C2: the estimate of a recipe is the smaller of 120 and the rounded sum of 10, twice the
  number of populated ingredient slots among the slots 1 to 20, and twice the number of
  segments of the instructions whose trimmed length is more than 6; it is at least 10 and
  at most 120.
\<close>

theorem estimateCookTime_formula:
  "estimateCookTime (Some m)
     = min 120 (Math_round (10 + 2 * real (ingredientCount m)
                               + 2 * real (qualifyingInstructionSegments m))) \<and>
   10 \<le> estimateCookTime (Some m) \<and> estimateCookTime (Some m) \<le> 120"
proof -
  have r: "10 + 2 * real (ingredientCount m) + 2 * real (qualifyingInstructionSegments m)
          = real (10 + 2 * ingredientCount m + 2 * qualifyingInstructionSegments m)"
    by simp
  show ?thesis
    unfolding r Math_round_of_nat by (simp add: estimateCookTime_counts)
qed

theorem estimateCookTime_formula_witness:
  "ingredientCount ex_mealB = 2 \<and> qualifyingInstructionSegments ex_mealB = 2 \<and>
   estimateCookTime (Some ex_mealB) = 18"
proof -
  have a: "ingredientCount ex_mealB = 2"
    unfolding ingredientCount_filter by code_simp
  have b: "qualifyingInstructionSegments ex_mealB = 2" by code_simp
  have c: "Math_round 18 = 18" unfolding Math_round_def by linarith
  from estimateCookTime_formula [of ex_mealB] show ?thesis
    unfolding a b using c by simp
qed

lemma split_loop_not_Nil: "split_loop P cur s \<noteq> []"
  by (induction s arbitrary: cur) simp_all

lemma split_loop_cur:
  "split_loop P cur s = (cur @ hd (split_loop P [] s)) # tl (split_loop P [] s)"
proof (induction s arbitrary: cur)
  case Nil
  then show ?case by simp
next
  case (Cons c s)
  show ?case
  proof (cases "P c")
    case True
    then show ?thesis by simp
  next
    case False
    then show ?thesis
      using Cons [of "cur @ [c]"] Cons [of "[c]"] by simp
  qed
qed

lemma split_loop_append:
  "split_loop P cur (a @ b)
     = butlast (split_loop P cur a)
       @ [last (split_loop P cur a) @ hd (split_loop P [] b)]
       @ tl (split_loop P [] b)"
proof (induction a arbitrary: cur)
  case Nil
  show ?case using split_loop_cur [of P cur b] by simp
next
  case (Cons c a)
  then show ?case by (simp add: split_loop_not_Nil)
qed

lemma split_str_append:
  "split_str P (a @ b)
     = butlast (split_str P a) @ [last (split_str P a) @ hd (split_str P b)] @ tl (split_str P b)"
  unfolding split_str_def by (rule split_loop_append)

lemma length_dropWhile_append_left:
  "length (dropWhile P a) \<le> length (dropWhile P (a @ b))"
  by (induction a) simp_all

lemma length_dropWhile_append_right:
  "length (dropWhile P b) \<le> length (dropWhile P (a @ b))"
proof (induction a)
  case Nil
  then show ?case by simp
next
  case (Cons x a)
  then show ?case using length_dropWhile_le [of P b] by auto
qed

lemma length_trim: "length (trim s) = length (dropWhile isWhiteSpace (rev (dropWhile isWhiteSpace s)))"
  by (simp add: trim_def)

lemma length_trim_append: "length (trim s) \<le> length (trim (s @ t))"
proof (cases "\<forall>x\<in>set s. isWhiteSpace x")
  case True
  then have e: "dropWhile isWhiteSpace s = []" by simp
  have "trim s = []" by (simp add: trim_def e)
  then show ?thesis by simp
next
  case False
  then have "dropWhile isWhiteSpace (s @ t) = dropWhile isWhiteSpace s @ t"
    by (auto simp add: dropWhile_append)
  then show ?thesis
    using length_dropWhile_append_right [of isWhiteSpace "rev (dropWhile isWhiteSpace s)" "rev t"]
    by (simp add: length_trim)
qed

lemma length_trim_prepend: "length (trim s) \<le> length (trim (t @ s))"
proof (cases "\<forall>x\<in>set t. isWhiteSpace x")
  case True
  then show ?thesis by (simp add: trim_def dropWhile_append)
next
  case False
  then have d: "dropWhile isWhiteSpace (t @ s) = dropWhile isWhiteSpace t @ s"
    by (auto simp add: dropWhile_append)
  have "rev s = rev (dropWhile isWhiteSpace s) @ rev (takeWhile isWhiteSpace s)"
    by (metis rev_append takeWhile_dropWhile_id)
  then have "rev (dropWhile isWhiteSpace t @ s)
      = rev (dropWhile isWhiteSpace s)
        @ (rev (takeWhile isWhiteSpace s) @ rev (dropWhile isWhiteSpace t))"
    by simp
  then show ?thesis
    using length_dropWhile_append_left [of isWhiteSpace "rev (dropWhile isWhiteSpace s)"
        "rev (takeWhile isWhiteSpace s) @ rev (dropWhile isWhiteSpace t)"]
    by (simp only: length_trim d)
qed

lemma count_split_append:
  "length (filter qualifies (split_str P a)) \<le> length (filter qualifies (split_str P (a @ b)))"
proof -
  let ?X = "split_str P a"
  have X: "?X = butlast ?X @ [last ?X]"
    by (simp add: split_str_def split_loop_not_Nil)
  have q: "qualifies (last ?X) \<Longrightarrow> qualifies (last ?X @ hd (split_str P b))"
    using length_trim_append [of "last ?X" "hd (split_str P b)"] by (simp add: qualifies_def)
  have "length (filter qualifies ?X)
      = length (filter qualifies (butlast ?X)) + length (filter qualifies [last ?X])"
    by (subst X) (simp only: filter_append length_append)
  also have "\<dots> \<le> length (filter qualifies (butlast ?X))
      + length (filter qualifies [last ?X @ hd (split_str P b)])"
    using q by simp
  also have "\<dots> \<le> length (filter qualifies (split_str P (a @ b)))"
    by (simp add: split_str_append [of P a b])
  finally show ?thesis .
qed

lemma count_split_prepend:
  "length (filter qualifies (split_str P b)) \<le> length (filter qualifies (split_str P (a @ b)))"
proof -
  let ?Y = "split_str P b"
  have Y: "?Y = hd ?Y # tl ?Y"
    by (simp add: split_str_def split_loop_not_Nil)
  have q: "qualifies (hd ?Y) \<Longrightarrow> qualifies (last (split_str P a) @ hd ?Y)"
    using length_trim_prepend [of "hd ?Y" "last (split_str P a)"] by (simp add: qualifies_def)
  have "length (filter qualifies ?Y)
      = length (filter qualifies [hd ?Y]) + length (filter qualifies (tl ?Y))"
    by (subst Y) simp
  also have "\<dots> \<le> length (filter qualifies [last (split_str P a) @ hd ?Y])
      + length (filter qualifies (tl ?Y))"
    using q by simp
  also have "\<dots> \<le> length (filter qualifies (split_str P (a @ b)))"
    by (simp add: split_str_append [of P a b])
  finally show ?thesis .
qed

lemma length_filter_mono:
  "(\<And>x. x \<in> set xs \<Longrightarrow> P x \<Longrightarrow> Q x) \<Longrightarrow> length (filter P xs) \<le> length (filter Q xs)"
  by (induction xs) auto

lemma ingredientCount_update:
  assumes "trim name \<noteq> []"
  shows "ingredientCount m \<le> ingredientCount (m\<lparr>strIngredient := (strIngredient m)(i \<mapsto> name)\<rparr>)"
  unfolding ingredientCount_filter
  by (rule length_filter_mono) (simp add: populated_def assms)

lemma qualifying_split:
  "qualifyingInstructionSegments m
     = length (filter qualifies (split_str isSeparator (orEmpty (strInstructions m))))"
  by (simp add: qualifyingInstructionSegments_def split_str_segments qualifies_def [abs_def])

lemma estimateCookTime_mono_counts:
  assumes "ingredientCount m \<le> ingredientCount m'"
    and "qualifyingInstructionSegments m \<le> qualifyingInstructionSegments m'"
  shows "estimateCookTime (Some m) \<le> estimateCookTime (Some m')"
  using assms by (simp add: estimateCookTime_counts)

text \<open>
  C6, as stated, fails: the estimate is not monotone in the length of the instructions. A
  longer text cut into short sentences has a lower estimate than a shorter text in one
  sentence, and a full stop put into the middle of a sentence lowers the estimate.
\<close>

theorem estimateCookTime_length_counterexample:
  "length ''Mix well'' < length ''Mix. Bake. Eat.'' \<and>
   estimateCookTime (Some (ex_mealM ''Mix well'')) = 12 \<and>
   estimateCookTime (Some (ex_mealM ''Mix. Bake. Eat.'')) = 10 \<and>
   length ''abcdefgh'' < length ''abcd.efgh'' \<and>
   estimateCookTime (Some (ex_mealM ''abcdefgh'')) = 12 \<and>
   estimateCookTime (Some (ex_mealM ''abcd.efgh'')) = 10"
proof -
  have a: "estimateCookTime (Some (ex_mealM ''Mix well'')) = 12" by code_simp
  have b: "estimateCookTime (Some (ex_mealM ''Mix. Bake. Eat.'')) = 10" by code_simp
  have c: "estimateCookTime (Some (ex_mealM ''abcdefgh'')) = 12" by code_simp
  have d: "estimateCookTime (Some (ex_mealM ''abcd.efgh'')) = 10" by code_simp
  from a b c d show ?thesis by simp
qed

text \<open>
  C6, amended: the estimate does not decrease when a slot is given a name that is not blank,
  nor when text is added at the end or at the start of the instructions; it is monotone in
  the number of populated slots and in the number of qualifying segments.
\<close>

theorem estimateCookTime_monotone:
  "(trim name \<noteq> [] \<longrightarrow>
      estimateCookTime (Some m)
        \<le> estimateCookTime (Some (m\<lparr>strIngredient := (strIngredient m)(i \<mapsto> name)\<rparr>))) \<and>
   estimateCookTime (Some m)
     \<le> estimateCookTime (Some (m\<lparr>strInstructions := Some (orEmpty (strInstructions m) @ t)\<rparr>)) \<and>
   estimateCookTime (Some m)
     \<le> estimateCookTime (Some (m\<lparr>strInstructions := Some (t @ orEmpty (strInstructions m))\<rparr>)) \<and>
   (ingredientCount m \<le> ingredientCount m' \<and>
    qualifyingInstructionSegments m \<le> qualifyingInstructionSegments m' \<longrightarrow>
      estimateCookTime (Some m) \<le> estimateCookTime (Some m'))"
proof (intro conjI impI)
  assume "trim name \<noteq> []"
  then have "ingredientCount m
      \<le> ingredientCount (m\<lparr>strIngredient := (strIngredient m)(i \<mapsto> name)\<rparr>)"
    by (rule ingredientCount_update)
  moreover have "qualifyingInstructionSegments m
      = qualifyingInstructionSegments (m\<lparr>strIngredient := (strIngredient m)(i \<mapsto> name)\<rparr>)"
    by (simp add: qualifyingInstructionSegments_def)
  ultimately show "estimateCookTime (Some m)
      \<le> estimateCookTime (Some (m\<lparr>strIngredient := (strIngredient m)(i \<mapsto> name)\<rparr>))"
    by (simp add: estimateCookTime_mono_counts)
next
  let ?m = "m\<lparr>strInstructions := Some (orEmpty (strInstructions m) @ t)\<rparr>"
  have "ingredientCount m = ingredientCount ?m"
    by (simp add: ingredientCount_def populated_def)
  moreover have "qualifyingInstructionSegments m \<le> qualifyingInstructionSegments ?m"
    using count_split_append [of isSeparator "orEmpty (strInstructions m)" t]
    by (simp add: qualifying_split orEmpty_def)
  ultimately show "estimateCookTime (Some m) \<le> estimateCookTime (Some ?m)"
    by (simp add: estimateCookTime_mono_counts)
next
  let ?m = "m\<lparr>strInstructions := Some (t @ orEmpty (strInstructions m))\<rparr>"
  have "ingredientCount m = ingredientCount ?m"
    by (simp add: ingredientCount_def populated_def)
  moreover have "qualifyingInstructionSegments m \<le> qualifyingInstructionSegments ?m"
    using count_split_prepend [of isSeparator "orEmpty (strInstructions m)" t]
    by (simp add: qualifying_split orEmpty_def)
  ultimately show "estimateCookTime (Some m) \<le> estimateCookTime (Some ?m)"
    by (simp add: estimateCookTime_mono_counts)
next
  assume "ingredientCount m \<le> ingredientCount m' \<and>
    qualifyingInstructionSegments m \<le> qualifyingInstructionSegments m'"
  then show "estimateCookTime (Some m) \<le> estimateCookTime (Some m')"
    by (simp add: estimateCookTime_mono_counts)
qed

theorem estimateCookTime_monotone_witness:
  "trim ''Salt'' \<noteq> [] \<and>
   estimateCookTime (Some ex_mealC) = 16 \<and>
   estimateCookTime (Some (ex_mealC\<lparr>strIngredient := (strIngredient ex_mealC)(4 \<mapsto> ''Salt'')\<rparr>)) = 18 \<and>
   estimateCookTime (Some ex_mealC)
     \<le> estimateCookTime (Some (ex_mealC\<lparr>strInstructions :=
          Some (orEmpty (strInstructions ex_mealC) @ '' the soup for ten minutes'')\<rparr>)) \<and>
   estimateCookTime (Some (ex_mealC\<lparr>strInstructions := Some ''Boil the soup for ten minutes''\<rparr>)) = 18"
proof -
  have a: "trim ''Salt'' \<noteq> []" by code_simp
  have b: "estimateCookTime (Some ex_mealC) = 16" by code_simp
  have c: "estimateCookTime (Some (ex_mealC\<lparr>strIngredient := (strIngredient ex_mealC)(4 \<mapsto> ''Salt'')\<rparr>)) = 18"
    by code_simp
  have d: "estimateCookTime (Some (ex_mealC\<lparr>strInstructions := Some ''Boil the soup for ten minutes''\<rparr>)) = 18"
    by code_simp
  from estimateCookTime_monotone [of "''Salt''" ex_mealC 4 "'' the soup for ten minutes''" ex_mealC]
  have "estimateCookTime (Some ex_mealC)
     \<le> estimateCookTime (Some (ex_mealC\<lparr>strInstructions :=
          Some (orEmpty (strInstructions ex_mealC) @ '' the soup for ten minutes'')\<rparr>))"
    by blast
  with a b c d show ?thesis by blast
qed

section \<open>Properties of the suggestions\<close>

lemma includes_str_sublist: "includes_str s q \<longleftrightarrow> sublist q s"
  by (induction s) (simp_all add: sublist_Cons_right)

lemma includes_str_iff: "includes_str s q \<longleftrightarrow> (\<exists>pre suf. s = pre @ q @ suf)"
  by (simp add: includes_str_sublist sublist_def)

lemma suggestions_eq:
  "suggestions query catalog chosen
     = (if query = [] then [] else take 10 (filter (matches_query query chosen) catalog))"
  by (simp add: suggestions_def matches_query_def [abs_def] includes_str_iff)

lemma subseq_take_filter: "subseq (take n (filter P xs)) xs"
proof -
  have "subseq (take n (filter P xs)) (filter P xs)"
    by (metis append_take_drop_id list_emb_append2 subseq_order.order_refl subseq_rev_drop_many
        list_emb_prefix prefix_order.order_refl take_is_prefix prefixI)
  then show ?thesis
    using subseq_filter_left subseq_order.order_trans by blast
qed

text \<open>
  C9: an empty query gives no suggestion; any other query gives the first ten of the catalog
  names that contain it up to case and are not chosen yet, in the order of the catalog. So
  there are at most ten suggestions, they form a subsequence of the catalog, they are sorted
  by any relation that sorts the catalog, each of them matches, and when at most ten catalog
  names match, the suggestions are exactly the matching names.
\<close>

theorem suggestions_spec:
  "(query = [] \<longrightarrow> suggestions query catalog chosen = []) \<and>
   (query \<noteq> [] \<longrightarrow>
      suggestions query catalog chosen = take 10 (filter (matches_query query chosen) catalog)) \<and>
   length (suggestions query catalog chosen) \<le> 10 \<and>
   subseq (suggestions query catalog chosen) catalog \<and>
   (sorted_wrt R catalog \<longrightarrow> sorted_wrt R (suggestions query catalog chosen)) \<and>
   (\<forall>n\<in>set (suggestions query catalog chosen). n \<in> set catalog \<and> matches_query query chosen n) \<and>
   (query \<noteq> [] \<and> length (filter (matches_query query chosen) catalog) \<le> 10 \<longrightarrow>
      set (suggestions query catalog chosen) = {n \<in> set catalog. matches_query query chosen n})"
proof (intro conjI impI)
  show "length (suggestions query catalog chosen) \<le> 10"
    by (simp add: suggestions_eq)
  show "subseq (suggestions query catalog chosen) catalog"
    by (simp add: suggestions_eq subseq_take_filter)
  show "\<forall>n\<in>set (suggestions query catalog chosen). n \<in> set catalog \<and> matches_query query chosen n"
    by (auto simp add: suggestions_eq dest: in_set_takeD)
  show "sorted_wrt R (suggestions query catalog chosen)" if "sorted_wrt R catalog"
    using that by (simp add: suggestions_eq sorted_wrt_filter)
  show "set (suggestions query catalog chosen) = {n \<in> set catalog. matches_query query chosen n}"
    if "query \<noteq> [] \<and> length (filter (matches_query query chosen) catalog) \<le> 10"
    using that by (simp add: suggestions_eq)
qed (simp_all add: suggestions_eq)

theorem suggestions_spec_witness:
  "suggestions [] ex_catalog [''Garlic''] = [] \<and>
   suggestions ''GAR'' ex_catalog [''Garlic''] = [''Garlic Clove''] \<and>
   matches_query ''GAR'' [''Garlic''] ''Garlic Clove'' \<and>
   ''Garlic Clove'' \<in> set ex_catalog"
proof -
  have a: "suggestions ''GAR'' ex_catalog [''Garlic''] = [''Garlic Clove'']" by code_simp
  from suggestions_spec [of "[]" ex_catalog "[''Garlic'']"]
  have b: "suggestions [] ex_catalog [''Garlic''] = []" by blast
  from suggestions_spec [of "''GAR''" ex_catalog "[''Garlic'']"]
  have "\<forall>n\<in>set (suggestions ''GAR'' ex_catalog [''Garlic'']).
          n \<in> set ex_catalog \<and> matches_query ''GAR'' [''Garlic''] n"
    by blast
  then have "''Garlic Clove'' \<in> set ex_catalog \<and> matches_query ''GAR'' [''Garlic''] ''Garlic Clove''"
    unfolding a by simp
  with a b show ?thesis by blast
qed

section \<open>Properties of the favourites\<close>

lemma find_None_iff': "find P xs = None \<longleftrightarrow> (\<forall>x\<in>set xs. \<not> P x)"
  by (induction xs) auto

lemma toggleFavourite_absent:
  "\<forall>x\<in>set f. idMeal x \<noteq> idMeal m \<Longrightarrow>
   toggleFavourite f m = f @ [\<lparr>idMeal = idMeal m, strMeal = strMeal m\<rparr>]"
  by (simp add: toggleFavourite_def find_None_iff' split: option.splits)

lemma toggleFavourite_present:
  "\<exists>x\<in>set f. idMeal x = idMeal m \<Longrightarrow>
   toggleFavourite f m = filter (\<lambda>x. idMeal x \<noteq> idMeal m) f"
  by (auto simp add: toggleFavourite_def find_None_iff' split: option.splits)

lemma toggle_twice_absent:
  assumes "\<forall>x\<in>set f. idMeal x \<noteq> idMeal m"
  shows "toggleFavourite (toggleFavourite f m) m = f"
proof -
  have "toggleFavourite (f @ [\<lparr>idMeal = idMeal m, strMeal = strMeal m\<rparr>]) m
        = filter (\<lambda>x. idMeal x \<noteq> idMeal m) (f @ [\<lparr>idMeal = idMeal m, strMeal = strMeal m\<rparr>])"
    by (rule toggleFavourite_present) simp
  also have "\<dots> = f" using assms by (simp add: filter_id_conv)
  finally show ?thesis using assms by (simp add: toggleFavourite_absent)
qed

lemma toggle_twice_present:
  assumes "\<exists>x\<in>set f. idMeal x = idMeal m"
  shows "toggleFavourite (toggleFavourite f m) m
         = filter (\<lambda>x. idMeal x \<noteq> idMeal m) f @ [\<lparr>idMeal = idMeal m, strMeal = strMeal m\<rparr>]"
proof -
  have "toggleFavourite f m = filter (\<lambda>x. idMeal x \<noteq> idMeal m) f"
    using assms by (rule toggleFavourite_present)
  moreover have "toggleFavourite (filter (\<lambda>x. idMeal x \<noteq> idMeal m) f) m
     = filter (\<lambda>x. idMeal x \<noteq> idMeal m) f @ [\<lparr>idMeal = idMeal m, strMeal = strMeal m\<rparr>]"
    by (rule toggleFavourite_absent) simp
  ultimately show ?thesis by simp
qed

lemma toggle_twice_ids:
  "set (map idMeal (toggleFavourite (toggleFavourite f m) m)) = set (map idMeal f)"
proof (cases "\<exists>x\<in>set f. idMeal x = idMeal m")
  case True
  have "insert (idMeal m) (idMeal ` {x \<in> set f. idMeal x \<noteq> idMeal m}) = idMeal ` set f"
    using True by (intro set_eqI iffI) force+
  then show ?thesis by (simp add: toggle_twice_present[OF True])
next
  case False
  then show ?thesis by (simp add: toggle_twice_absent)
qed

lemma toggle_twice_set:
  assumes "\<forall>x\<in>set f. idMeal x = idMeal m \<longrightarrow> strMeal x = strMeal m"
  shows "set (toggleFavourite (toggleFavourite f m) m) = set f"
proof (cases "\<exists>x\<in>set f. idMeal x = idMeal m")
  case True
  define n :: summary where "n = \<lparr>idMeal = idMeal m, strMeal = strMeal m\<rparr>"
  have eq: "x = n" if "x \<in> set f" "idMeal x = idMeal m" for x :: summary
    using that assms unfolding n_def by (cases x) auto
  from True obtain y where y: "y \<in> set f" "idMeal y = idMeal m" by blast
  from eq[OF y] y(1) have "n \<in> set f" by simp
  with eq have "insert n {x \<in> set f. idMeal x \<noteq> idMeal m} = set f" by blast
  then show ?thesis by (simp add: toggle_twice_present[OF True] n_def)
next
  case False
  then show ?thesis by (simp add: toggle_twice_absent)
qed

text \<open>
  C7: a toggle appends the pair of identifier and name when no entry has the identifier
  and otherwise removes the entries with it; two toggles with the same recipe restore the
  set of favourite identifiers, restore the list itself when the identifier was absent, and
  restore the set of pairs when the stored entries for the identifier carry the recipe's name.
\<close>

theorem toggleFavourite_round_trip:
  "((\<forall>x\<in>set f. idMeal x \<noteq> idMeal m) \<longrightarrow>
      toggleFavourite f m = f @ [\<lparr>idMeal = idMeal m, strMeal = strMeal m\<rparr>] \<and>
      toggleFavourite (toggleFavourite f m) m = f) \<and>
   ((\<exists>x\<in>set f. idMeal x = idMeal m) \<longrightarrow>
      toggleFavourite f m = filter (\<lambda>x. idMeal x \<noteq> idMeal m) f) \<and>
   set (map idMeal (toggleFavourite (toggleFavourite f m) m)) = set (map idMeal f) \<and>
   ((\<forall>x\<in>set f. idMeal x = idMeal m \<longrightarrow> strMeal x = strMeal m) \<longrightarrow>
      set (toggleFavourite (toggleFavourite f m) m) = set f)"
  using toggleFavourite_absent[of f m] toggleFavourite_present[of f m]
    toggle_twice_absent[of f m] toggle_twice_ids[of f m] toggle_twice_set[of f m]
  by blast

theorem toggleFavourite_round_trip_witness:
  "toggleFavourite ex_favourites ex_mealB
     = [\<lparr>idMeal = ''52772'', strMeal = Some ''Teriyaki Chicken Casserole''\<rparr>] \<and>
   set (toggleFavourite (toggleFavourite ex_favourites ex_mealB) ex_mealB) = set ex_favourites \<and>
   toggleFavourite (toggleFavourite ex_favourites ex_mealC) ex_mealC = ex_favourites"
proof -
  have a: "\<exists>x\<in>set ex_favourites. idMeal x = idMeal ex_mealB"
    by (simp add: ex_favourites_def ex_mealB_def)
  have b: "\<forall>x\<in>set ex_favourites. idMeal x = idMeal ex_mealB \<longrightarrow> strMeal x = strMeal ex_mealB"
    by (simp add: ex_favourites_def ex_mealB_def)
  have c: "\<forall>x\<in>set ex_favourites. idMeal x \<noteq> idMeal ex_mealC"
    by (simp add: ex_favourites_def ex_mealC_def)
  have e: "filter (\<lambda>x. idMeal x \<noteq> idMeal ex_mealB) ex_favourites
     = [\<lparr>idMeal = ''52772'', strMeal = Some ''Teriyaki Chicken Casserole''\<rparr>]"
    by (simp add: ex_favourites_def ex_mealB_def)
  from toggleFavourite_round_trip [of ex_favourites ex_mealB]
    toggleFavourite_round_trip [of ex_favourites ex_mealC] a b c e
  show ?thesis by metis
qed

end
